theory Spec2Isabelle
  imports Complex_Main "HOL-Library.Multiset"
begin

section \<open>Data model\<close>

text \<open>
  \<^verbatim>\<open>pack_images_shelf\<close> takes \<^verbatim>\<open>images_sizes\<close>, a list of tuples
  \<^verbatim>\<open>(w_px, h_px, original_index)\<close>, and returns a list of pages, each a list of
  placements \<^verbatim>\<open>(index, x, y, w, h)\<close>. All components are Python integers, which are
  unbounded, so they are \<^typ>\<open>int\<close> here.
\<close>

type_synonym size = "int \<times> int \<times> int"

type_synonym placement = "int \<times> int \<times> int \<times> int \<times> int"

fun size_w :: "size \<Rightarrow> int" where
  "size_w (w, h, idx) = w"

fun size_h :: "size \<Rightarrow> int" where
  "size_h (w, h, idx) = h"







text \<open>
  The exceptions the packer can raise: the explicit \<^verbatim>\<open>RuntimeError\<close> of the fallback
  branch, the \<^verbatim>\<open>IndexError\<close> of \<^verbatim>\<open>images_sizes[i]\<close> with \<^verbatim>\<open>i == n\<close>, and the
  \<^verbatim>\<open>ZeroDivisionError\<close> of \<^verbatim>\<open>max_w / w\<close>.
\<close>

datatype error = RuntimeError | IndexError | ZeroDivisionError

section \<open>Floating point and rounding\<close>

text \<open>
  The source scales sizes in Python's \<^verbatim>\<open>float\<close>, the binary64 format of IEEE 754, and
  rounds the result with \<^verbatim>\<open>round\<close>. A float is carried here as the rational number it
  denotes.

  \<open>to_float q\<close> is the double nearest to \<open>q\<close>, a tie going to the double with the even
  significand. A double has a significand of 53 bits: \<open>q\<close> is divided by the power of two
  that brings it into the range from \<open>2^52\<close> to \<open>2^53\<close>, rounded to an integer, and multiplied
  back. \<open>float_exponent q\<close> is the exponent of the greatest power of two that is at most
  the magnitude of \<open>q\<close>; the bit lengths of numerator and denominator give it up to one.

  The exponent range of a double is left out: the model has no overflow and no subnormal
  numbers. Python raises \<^verbatim>\<open>OverflowError\<close> for an integer of \<open>2^1024\<close> or more, far beyond any
  size in pixels.
\<close>

function bit_length :: "int \<Rightarrow> int" where
  "bit_length n = (if n \<le> 0 then 0 else 1 + bit_length (n div 2))"
  by pat_completeness auto
termination
  by (relation "measure nat") auto

declare bit_length.simps [simp del]

definition pow2 :: "int \<Rightarrow> rat" where
  "pow2 k = (if 0 \<le> k then 2 ^ nat k else 1 / 2 ^ nat (- k))"

definition float_exponent :: "rat \<Rightarrow> int" where
  "float_exponent q =
     (case quotient_of \<bar>q\<bar> of
        (a, b) \<Rightarrow>
          (let d = bit_length a - bit_length b
           in if pow2 d \<le> \<bar>q\<bar> then d else d - 1))"

text \<open>
  Python's \<^verbatim>\<open>round\<close> of a float, with one argument: the nearest integer, and for a tie
  the even one.
\<close>

definition py_round :: "rat \<Rightarrow> int" where
  "py_round q =
     (let f = \<lfloor>q\<rfloor>; r = q - of_int f
      in if r < 1 / 2 then f
         else if 1 / 2 < r then f + 1
         else if even f then f else f + 1)"

definition to_float :: "rat \<Rightarrow> rat" where
  "to_float q =
     (if q = 0 then 0
      else (let k = float_exponent q - 52 in of_int (py_round (q / pow2 k)) * pow2 k))"

text \<open>
  The three float operations of the source, each correctly rounded in Python: the
  conversion of an \<^verbatim>\<open>int\<close> operand to \<^verbatim>\<open>float\<close>, the true division \<^verbatim>\<open>/\<close> of two ints, and
  the product \<^verbatim>\<open>*\<close> of two floats. In \<^verbatim>\<open>w * scale\<close> the int \<^verbatim>\<open>w\<close> is converted first.
\<close>

definition float_of_int :: "int \<Rightarrow> rat" where
  "float_of_int n = to_float (of_int n)"

definition true_div :: "int \<Rightarrow> int \<Rightarrow> rat" where
  "true_div a b = to_float (of_int a / of_int b)"

definition float_mul :: "rat \<Rightarrow> rat \<Rightarrow> rat" where
  "float_mul x y = to_float (x * y)"

section \<open>The shelf packer\<close>

text \<open>
  The index \<^verbatim>\<open>i\<close> into \<^verbatim>\<open>images_sizes\<close> only ever grows by one, so the model carries
  the images not yet placed, \<^verbatim>\<open>images_sizes[i:]\<close>, instead: \<^verbatim>\<open>i < n\<close> is that this
  list is not empty, \<^verbatim>\<open>images_sizes[i]\<close> is its head and \<^verbatim>\<open>i += 1\<close> drops the head.

  The innermost loop (the \<^verbatim>\<open>while i < n\<close> that gathers one shelf) returns the images left,
  \<^verbatim>\<open>shelf_x\<close>, \<^verbatim>\<open>shelf_height\<close> and the placements.
\<close>

fun shelf_loop ::
  "int \<Rightarrow> int \<Rightarrow> int \<Rightarrow> size list \<Rightarrow> int \<Rightarrow> int \<Rightarrow> placement list
     \<Rightarrow> size list \<times> int \<times> int \<times> placement list" where
  "shelf_loop page_w padding y [] shelf_x shelf_height placements =
     ([], shelf_x, shelf_height, placements)"
| "shelf_loop page_w padding y ((w, h, idx) # rest) shelf_x shelf_height placements =
     (if w + shelf_x + padding \<le> page_w
      then shelf_loop page_w padding y rest (shelf_x + (w + padding))
             (if h > shelf_height then h else shelf_height)
             (placements @ [(idx, shelf_x, y, w, h)])
      else ((w, h, idx) # rest, shelf_x, shelf_height, placements))"

text \<open>
  The branch taken when \<^verbatim>\<open>shelf_height == 0\<close> after the shelf loop: it reads
  \<^verbatim>\<open>images_sizes[i]\<close>, scales that image to the usable width and places it alone.
  It returns the images left, the new \<^verbatim>\<open>shelf_height\<close> and the placements.
\<close>

definition fallback ::
  "int \<Rightarrow> int \<Rightarrow> int \<Rightarrow> size list \<Rightarrow> placement list
     \<Rightarrow> error + (size list \<times> int \<times> placement list)" where
  "fallback page_w padding y imgs placements =
     (case imgs of
        [] \<Rightarrow> Inl IndexError
      | (w, h, idx) # rest \<Rightarrow>
          (let max_w = page_w - 2 * padding in
           if max_w \<le> 0 then Inl RuntimeError
           else if w = 0 then Inl ZeroDivisionError
           else
             (let scale = true_div max_w w;
                  new_w = py_round (float_mul (float_of_int w) scale);
                  new_h = py_round (float_mul (float_of_int h) scale)
              in Inr (rest, new_h, placements @ [(idx, padding, y, new_w, new_h)]))))"

text \<open>
  The width and the height that the fallback gives an image of size \<^verbatim>\<open>(w, h)\<close>:
  \<^verbatim>\<open>int(round(w * scale))\<close> and \<^verbatim>\<open>int(round(h * scale))\<close> with \<^verbatim>\<open>scale = max_w / w\<close>.
\<close>

definition scaled_width :: "int \<Rightarrow> int \<Rightarrow> int \<Rightarrow> int" where
  "scaled_width page_w padding w =
     py_round (float_mul (float_of_int w) (true_div (page_w - 2 * padding) w))"


text \<open>One shelf: the shelf loop, then the fallback when \<^verbatim>\<open>shelf_height == 0\<close>.\<close>

definition shelf_step ::
  "int \<Rightarrow> int \<Rightarrow> int \<Rightarrow> size list \<Rightarrow> placement list
     \<Rightarrow> error + (size list \<times> int \<times> placement list)" where
  "shelf_step page_w padding y imgs placements =
     (case shelf_loop page_w padding y imgs padding 0 placements of
        (imgs', shelf_x, shelf_height, placements') \<Rightarrow>
          if shelf_height = 0 then fallback page_w padding y imgs' placements'
          else Inr (imgs', shelf_height, placements'))"

text \<open>
  Every shelf step consumes an image: the shelf loop leaves a suffix, leaves a shorter one
  when it raised \<^verbatim>\<open>shelf_height\<close>, and the fallback drops the head. This is what makes
  the page loop below terminate.
\<close>

lemma shelf_loop_length:
  "shelf_loop page_w padding y imgs shelf_x shelf_height placements =
     (imgs', shelf_x', shelf_height', placements')
   \<Longrightarrow> length imgs' \<le> length imgs \<and>
       (shelf_height' \<noteq> shelf_height \<longrightarrow> length imgs' < length imgs)"
proof (induction imgs arbitrary: shelf_x shelf_height placements)
  case Nil
  then show ?case by simp
next
  case (Cons a imgs)
  obtain w h idx where a: "a = (w, h, idx)" by (cases a) auto
  show ?case
  proof (cases "w + shelf_x + padding \<le> page_w")
    case True
    with Cons.prems a have
      "shelf_loop page_w padding y imgs (shelf_x + (w + padding))
         (if h > shelf_height then h else shelf_height)
         (placements @ [(idx, shelf_x, y, w, h)])
       = (imgs', shelf_x', shelf_height', placements')" by simp
    from Cons.IH [OF this] show ?thesis by simp
  next
    case False
    with Cons.prems a show ?thesis by auto
  qed
qed

lemma shelf_step_length:
  assumes "shelf_step page_w padding y imgs placements = Inr (imgs', shelf_height, placements')"
    and "imgs \<noteq> []"
  shows "length imgs' < length imgs"
proof -
  obtain i1 x1 h1 p1 where
    sl: "shelf_loop page_w padding y imgs padding 0 placements = (i1, x1, h1, p1)"
    by (metis prod_cases4)
  from shelf_loop_length [OF sl]
  have le: "length i1 \<le> length imgs" and lt: "h1 \<noteq> 0 \<Longrightarrow> length i1 < length imgs"
    by auto
  show ?thesis
  proof (cases "h1 = 0")
    case True
    with assms sl have "fallback page_w padding y i1 p1 = Inr (imgs', shelf_height, placements')"
      by (simp add: shelf_step_def)
    then have "length imgs' < length i1"
      by (auto simp: fallback_def Let_def split: list.splits if_splits)
    with le show ?thesis by simp
  next
    case False
    with assms sl have "imgs' = i1" by (simp add: shelf_step_def)
    with lt False show ?thesis by simp
  qed
qed

text \<open>
  The loop over the shelves of one page, \<^verbatim>\<open>while y < page_h_px - padding and i < n\<close>,
  with its \<^verbatim>\<open>break\<close> when the page is full. It returns the images left and the page's
  placements, or the exception of a shelf step.
\<close>

function page_loop ::
  "int \<Rightarrow> int \<Rightarrow> int \<Rightarrow> size list \<Rightarrow> int \<Rightarrow> placement list
     \<Rightarrow> error + (size list \<times> placement list)" where
  "page_loop page_w page_h padding imgs y placements =
     (if y < page_h - padding \<and> imgs \<noteq> [] then
        (case shelf_step page_w padding y imgs placements of
           Inl e \<Rightarrow> Inl e
         | Inr (imgs', shelf_height, placements') \<Rightarrow>
             (let y' = y + (shelf_height + padding) in
              if y' \<ge> page_h - padding \<and> imgs' \<noteq> [] then Inr (imgs', placements')
              else page_loop page_w page_h padding imgs' y' placements'))
      else Inr (imgs, placements))"
  by pat_completeness auto
termination
  by (relation "measure (\<lambda>(page_w, page_h, padding, imgs, y, placements). length imgs)")
     (auto dest: shelf_step_length)

declare page_loop.simps [simp del]

text \<open>
  The outer loop, \<^verbatim>\<open>while i < n\<close>, appends one page per round. Nothing in it forces
  \<^verbatim>\<open>i\<close> to grow, so it is a partial function: \<open>None\<close> is the run that never returns,
  \<open>Some (Inl e)\<close> the run that raises and \<open>Some (Inr pages)\<close> the run that returns.
\<close>

partial_function (option) pages_loop ::
  "int \<Rightarrow> int \<Rightarrow> int \<Rightarrow> size list \<Rightarrow> placement list list
     \<Rightarrow> (error + placement list list) option" where
  "pages_loop page_w page_h padding imgs pages =
     (if imgs \<noteq> [] then
        (case page_loop page_w page_h padding imgs padding [] of
           Inl e \<Rightarrow> Some (Inl e)
         | Inr (imgs', placements) \<Rightarrow>
             pages_loop page_w page_h padding imgs' (pages @ [placements]))
      else Some (Inr pages))"

declare pages_loop.simps [code]

definition pack_images_shelf ::
  "size list \<Rightarrow> int \<Rightarrow> int \<Rightarrow> int \<Rightarrow> (error + placement list list) option" where
  "pack_images_shelf images_sizes page_w_px page_h_px padding =
     pages_loop page_w_px page_h_px padding images_sizes []"

text \<open>The page count that \<^verbatim>\<open>main\<close> prints, \<^verbatim>\<open>len(pages_placement)\<close>, of a run that returns.\<close>

definition num_pages :: "(error + placement list list) option \<Rightarrow> nat option" where
  "num_pages r = (case r of Some (Inr pages) \<Rightarrow> Some (length pages) | _ \<Rightarrow> None)"

section \<open>Size normalization and ordering in \<^verbatim>\<open>main\<close>\<close>




text \<open>
  \<^verbatim>\<open>sizes.sort(key=lambda x: x[1], reverse=True)\<close>: a stable sort by height, tallest
  first; images of equal height keep their order.
\<close>

definition sort_sizes :: "size list \<Rightarrow> size list" where
  "sort_sizes sizes = sort_key (\<lambda>s. - size_h s) sizes"

section \<open>Properties of placements\<close>




text \<open>The sizes the data model allows: positive widths and heights.\<close>

definition positive_sizes :: "size list \<Rightarrow> bool" where
  "positive_sizes imgs = list_all (\<lambda>s. 0 < size_w s \<and> 0 < size_h s) imgs"




text \<open>Sizes with positive heights, whatever their widths.\<close>

definition positive_heights :: "size list \<Rightarrow> bool" where
  "positive_heights imgs = list_all (\<lambda>s. 0 < size_h s) imgs"

section \<open>One pass over the images\<close>








section \<open>Unfolding the loops\<close>

lemma positive_sizes_Cons [simp]:
  "positive_sizes ((w, h, idx) # imgs) \<longleftrightarrow> 0 < w \<and> 0 < h \<and> positive_sizes imgs"
  by (simp add: positive_sizes_def)

lemma positive_sizes_Nil [simp]: "positive_sizes []"
  by (simp add: positive_sizes_def)

lemma positive_sizes_append [simp]:
  "positive_sizes (xs @ ys) \<longleftrightarrow> positive_sizes xs \<and> positive_sizes ys"
  by (simp add: positive_sizes_def)

lemma page_loop_stop:
  "\<not> (y < page_h - padding \<and> imgs \<noteq> []) \<Longrightarrow>
   page_loop page_w page_h padding imgs y placements = Inr (imgs, placements)"
  by (subst page_loop.simps) auto

lemma page_loop_error:
  "y < page_h - padding \<Longrightarrow> imgs \<noteq> [] \<Longrightarrow>
   shelf_step page_w padding y imgs placements = Inl e \<Longrightarrow>
   page_loop page_w page_h padding imgs y placements = Inl e"
  by (subst page_loop.simps) simp

lemma page_loop_full:
  "y < page_h - padding \<Longrightarrow> imgs \<noteq> [] \<Longrightarrow>
   shelf_step page_w padding y imgs placements = Inr (imgs', sh, placements') \<Longrightarrow>
   page_h - padding \<le> y + (sh + padding) \<Longrightarrow> imgs' \<noteq> [] \<Longrightarrow>
   page_loop page_w page_h padding imgs y placements = Inr (imgs', placements')"
  by (subst page_loop.simps) simp

lemma page_loop_next:
  "y < page_h - padding \<Longrightarrow> imgs \<noteq> [] \<Longrightarrow>
   shelf_step page_w padding y imgs placements = Inr (imgs', sh, placements') \<Longrightarrow>
   \<not> (page_h - padding \<le> y + (sh + padding) \<and> imgs' \<noteq> []) \<Longrightarrow>
   page_loop page_w page_h padding imgs y placements =
     page_loop page_w page_h padding imgs' (y + (sh + padding)) placements'"
  by (subst page_loop.simps) (auto simp: Let_def)






lemma shelf_loop_suffix:
  "shelf_loop page_w padding y imgs shelf_x shelf_height placements =
     (imgs', shelf_x', shelf_height', placements')
   \<Longrightarrow> \<exists>placed. imgs = placed @ imgs'"
proof (induction imgs arbitrary: shelf_x shelf_height placements)
  case Nil
  then show ?case by simp
next
  case (Cons a imgs)
  obtain w h idx where a: "a = (w, h, idx)" by (cases a) auto
  show ?case
  proof (cases "w + shelf_x + padding \<le> page_w")
    case True
    with Cons.prems a have
      "shelf_loop page_w padding y imgs (shelf_x + (w + padding))
         (if h > shelf_height then h else shelf_height)
         (placements @ [(idx, shelf_x, y, w, h)])
       = (imgs', shelf_x', shelf_height', placements')" by simp
    from Cons.IH [OF this] obtain placed where "imgs = placed @ imgs'" ..
    then have "a # imgs = (a # placed) @ imgs'" by simp
    then show ?thesis ..
  next
    case False
    with Cons.prems a have "a # imgs = [] @ imgs'" by auto
    then show ?thesis ..
  qed
qed

lemma shelf_loop_height_mono:
  "shelf_loop page_w padding y imgs shelf_x shelf_height placements =
     (imgs', shelf_x', shelf_height', placements')
   \<Longrightarrow> shelf_height \<le> shelf_height'"
proof (induction imgs arbitrary: shelf_x shelf_height placements)
  case Nil
  then show ?case by simp
next
  case (Cons a imgs)
  obtain w h idx where a: "a = (w, h, idx)" by (cases a) auto
  show ?case
  proof (cases "w + shelf_x + padding \<le> page_w")
    case True
    with Cons.prems a have
      "shelf_loop page_w padding y imgs (shelf_x + (w + padding))
         (if h > shelf_height then h else shelf_height)
         (placements @ [(idx, shelf_x, y, w, h)])
       = (imgs', shelf_x', shelf_height', placements')" by simp
    from Cons.IH [OF this] show ?thesis by (simp split: if_splits)
  next
    case False
    with Cons.prems a show ?thesis by auto
  qed
qed













section \<open>The outer loop: when it returns\<close>

text \<open>
  A page loop that starts at \<^verbatim>\<open>y = padding\<close> with \<^verbatim>\<open>padding >= page_h_px - padding\<close>
  places nothing and leaves \<^verbatim>\<open>i\<close> as it was, so the outer loop appends an empty page and
  meets the same state again: it returns only if the page has room for a shelf or no
  image is left.
\<close>

lemma pages_loop_returns_only_if:
  assumes "pages_loop page_w page_h padding imgs pages = Some r"
  shows "padding < page_h - padding \<or> imgs = []"
proof (rule pages_loop.raw_induct
    [where P = "\<lambda>page_w page_h padding imgs pages r. padding < page_h - padding \<or> imgs = []",
      OF _ assms])
  fix f :: "int \<Rightarrow> int \<Rightarrow> int \<Rightarrow> size list \<Rightarrow> placement list list
     \<Rightarrow> (error + placement list list) option"
  fix page_w page_h padding :: int and imgs :: "size list" and pages r
  assume IH: "\<And>page_w page_h padding imgs pages r.
      f page_w page_h padding imgs pages = Some r \<Longrightarrow> padding < page_h - padding \<or> imgs = []"
    and body: "(if imgs \<noteq> [] then
        (case page_loop page_w page_h padding imgs padding [] of
           Inl e \<Rightarrow> Some (Inl e)
         | Inr (imgs', placements) \<Rightarrow> f page_w page_h padding imgs' (pages @ [placements]))
      else Some (Inr pages)) = Some r"
  show "padding < page_h - padding \<or> imgs = []"
  proof (rule ccontr)
    assume "\<not> (padding < page_h - padding \<or> imgs = [])"
    then have stuck: "\<not> padding < page_h - padding" and ne: "imgs \<noteq> []" by auto
    from stuck have "page_loop page_w page_h padding imgs padding [] = Inr (imgs, [])"
      by (simp add: page_loop.simps)
    with body ne have "f page_w page_h padding imgs (pages @ [[]]) = Some r" by simp
    from IH [OF this] stuck ne show False by simp
  qed
qed

lemma pages_loop_diverges:
  assumes "page_h - padding \<le> padding" and "imgs \<noteq> []"
  shows "pages_loop page_w page_h padding imgs pages = None"
proof (cases "pages_loop page_w page_h padding imgs pages")
  case None
  then show ?thesis .
next
  case (Some r)
  from pages_loop_returns_only_if [OF this] assms show ?thesis by simp
qed

text \<open>
  A page too narrow for any image of positive width: the first shelf step of the first
  page places nothing and raises in the fallback branch.
\<close>

lemma pages_loop_narrow_page:
  assumes "0 < w" and "page_w - 2 * padding \<le> 0" and "2 * padding < page_h"
  shows "pages_loop page_w page_h padding ((w, h, idx) # rest) pages = Some (Inl RuntimeError)"
proof -
  let ?imgs = "(w, h, idx) # rest"
  from assms(1,2) have "\<not> w + padding + padding \<le> page_w" by simp
  then have "shelf_loop page_w padding padding ?imgs padding 0 [] = (?imgs, padding, 0, [])"
    by simp
  with assms(2) have "shelf_step page_w padding padding ?imgs [] = Inl RuntimeError"
    by (simp add: shelf_step_def fallback_def)
  with assms(3) have "page_loop page_w page_h padding ?imgs padding [] = Inl RuntimeError"
    by (intro page_loop_error) simp_all
  then show ?thesis by (subst pages_loop.simps) simp
qed


section \<open>Completeness (C1)\<close>



section \<open>Non-overlap (C2)\<close>










section \<open>Containment (C3)\<close>





text \<open>
  The fallback's width is the usable width taken through a float quotient and a float
  product. At sizes in pixels it is the usable width again; from usable widths of about
  \<open>2^51\<close> on the two roundings can leave it one pixel wider, which is why the right edge
  of a fallback placement is not bounded below.
\<close>

lemma fallback_width_beyond_usable_width:
  "scaled_width (2403990933785303 + 2 * 10) 10 4761492088532720 = 2403990933785303 + 1"
  by code_simp



section \<open>Termination (C4)\<close>

text \<open>
  C4 says that \<^verbatim>\<open>pack_images_shelf\<close> terminates for every list of sizes with non-negative
  dimensions and every configuration with positive page width and height and
  non-negative padding. On a page of 17 by 23 pixels (A4 at 2 DPI) with the padding 12
  that \<^verbatim>\<open>main\<close> passes, the condition \<^verbatim>\<open>y < page_h_px - padding\<close> is \<^verbatim>\<open>12 < 11\<close>: no
  shelf is ever started, and the run on one image of size 1 by 1 never returns.
\<close>

theorem pack_images_shelf_never_returns_on_short_page:
  "pack_images_shelf [(1, 1, 0)] 17 23 12 = None"
  unfolding pack_images_shelf_def by (rule pages_loop_diverges) simp_all

section \<open>Scenario C (C5)\<close>

text \<open>
  C5 says that five images of size (250, 50) on a page of (300, 300) with padding 10 give
  2 pages, four shelves on the first and one on the second. The run returns one page:
  a shelf is started whenever \<^verbatim>\<open>y < page_h_px - padding\<close>, and after four shelves
  \<^verbatim>\<open>y = 250 < 290\<close>, so the fifth shelf is started on the same page.
\<close>

theorem scenario_c_not_two_pages:
  "num_pages (pack_images_shelf
     [(250, 50, 0), (250, 50, 1), (250, 50, 2), (250, 50, 3), (250, 50, 4)] 300 300 10)
   \<noteq> Some 2"
  by code_simp

text \<open>
  C5 as amended: the five images are placed on one page, on five shelves of one image
  each, at \<^verbatim>\<open>y\<close> = 10, 70, 130, 190 and 250.
\<close>

theorem scenario_c_one_page:
  "pack_images_shelf
     [(250, 50, 0), (250, 50, 1), (250, 50, 2), (250, 50, 3), (250, 50, 4)] 300 300 10
   = Some (Inr [[(0, 10, 10, 250, 50), (1, 10, 70, 250, 50), (2, 10, 130, 250, 50),
                 (3, 10, 190, 250, 50), (4, 10, 250, 250, 50)]])"
  by code_simp

section \<open>Configuration error (C6)\<close>

text \<open>
  C6 says that for every non-empty list of sizes a usable width
  \<^verbatim>\<open>pageWidth - 2*padding <= 0\<close> makes \<^verbatim>\<open>pack_images_shelf\<close> raise before packing starts.
  The test stands in the fallback branch only, which is reached when the shelf loop has
  left \<^verbatim>\<open>shelf_height == 0\<close>: an image of width 0 passes the fit test
  \<^verbatim>\<open>0 + 10 + 10 <= 20\<close> and is placed, and on a page no higher than twice the padding
  no shelf is started at all and the run does not return.
\<close>

theorem narrow_page_without_error:
  "pack_images_shelf [(0, 5, 0)] 20 300 10 = Some (Inr [[(0, 10, 10, 0, 5)]]) \<and>
   pack_images_shelf [(5, 5, 0)] 20 20 10 = None"
proof
  show "pack_images_shelf [(0, 5, 0)] 20 300 10 = Some (Inr [[(0, 10, 10, 0, 5)]])"
    by code_simp
  show "pack_images_shelf [(5, 5, 0)] 20 20 10 = None"
    unfolding pack_images_shelf_def by (rule pages_loop_diverges) simp_all
qed

text \<open>
  C6 as amended: for every non-empty list of sizes whose first image has a positive
  width, if \<^verbatim>\<open>pageWidth - 2*padding <= 0\<close> and \<^verbatim>\<open>pageHeight > 2*padding\<close>, then
  \<^verbatim>\<open>pack_images_shelf\<close> raises the \<^verbatim>\<open>RuntimeError\<close> in the first shelf step of the first
  page, whose shelf loop has placed nothing.
\<close>

theorem narrow_page_raises:
  assumes "images_sizes \<noteq> []" and "0 < size_w (hd images_sizes)"
    and "page_w_px - 2 * padding \<le> 0" and "2 * padding < page_h_px"
  shows "pack_images_shelf images_sizes page_w_px page_h_px padding = Some (Inl RuntimeError) \<and>
         shelf_loop page_w_px padding padding images_sizes padding 0 [] =
           (images_sizes, padding, 0, [])"
proof -
  from assms(1) obtain w h idx rest where imgs: "images_sizes = (w, h, idx) # rest"
    by (cases images_sizes) auto
  with assms(2) have w: "0 < w" by simp
  from pages_loop_narrow_page [OF w assms(3,4)] imgs
  have "pack_images_shelf images_sizes page_w_px page_h_px padding = Some (Inl RuntimeError)"
    by (simp add: pack_images_shelf_def)
  moreover from w assms(3) imgs
  have "shelf_loop page_w_px padding padding images_sizes padding 0 [] =
           (images_sizes, padding, 0, [])"
    by simp
  ultimately show ?thesis ..
qed

theorem narrow_page_raises_witness:
  "[(5, 5, 0), (1, 1, 1)] \<noteq> ([] :: size list) \<and> 0 < size_w (hd [(5::int, 5::int, 0::int), (1, 1, 1)]) \<and>
   (20::int) - 2 * 10 \<le> 0 \<and> 2 * 10 < (300::int) \<and>
   pack_images_shelf [(5, 5, 0), (1, 1, 1)] 20 300 10 = Some (Inl RuntimeError)"
  using narrow_page_raises [of "[(5, 5, 0), (1, 1, 1)]" 20 10 300] by simp

section \<open>Size normalization (C7)\<close>





section \<open>Scenario A (C8)\<close>

text \<open>
  C8 says that three images of size (100, 100) on a page of (300, 300) with padding 10
  share one shelf at \<^verbatim>\<open>y = 10\<close>, at \<^verbatim>\<open>x\<close> = 10, 120 and 230. The third image does not
  pass the test \<^verbatim>\<open>w + shelf_x + padding <= page_w_px\<close>, which is \<^verbatim>\<open>100 + 230 + 10 <= 300\<close>.
\<close>

theorem scenario_a_not_one_shelf:
  "pack_images_shelf [(100, 100, 0), (100, 100, 1), (100, 100, 2)] 300 300 10
   \<noteq> Some (Inr [[(0, 10, 10, 100, 100), (1, 120, 10, 100, 100), (2, 230, 10, 100, 100)]])"
  by code_simp

text \<open>
  C8 as amended: the first two images are placed on a shelf at \<^verbatim>\<open>y = 10\<close>, at \<^verbatim>\<open>x\<close> = 10
  and 120, and the third on a second shelf at \<^verbatim>\<open>y = 120\<close>, \<^verbatim>\<open>x = 10\<close>; there is one page.
\<close>

theorem scenario_a_two_shelves:
  "pack_images_shelf [(100, 100, 0), (100, 100, 1), (100, 100, 2)] 300 300 10
   = Some (Inr [[(0, 10, 10, 100, 100), (1, 120, 10, 100, 100), (2, 10, 120, 100, 100)]])"
  by code_simp

section \<open>Monotonic page growth (C9)\<close>























text \<open>
  C9 says that, with the configuration held fixed and the height-descending order applied
  before packing, for every list \<open>L\<close> of sizes and every further size \<open>s\<close> the sorted
  \<open>L @ [s]\<close> is packed into at least as many pages as the sorted \<open>L\<close>. It does not restrict
  the sizes. An image of height 0 that fits the width is placed by the shelf loop and
  leaves \<^verbatim>\<open>shelf_height\<close> at 0; the fallback then reads \<^verbatim>\<open>sizes[i]\<close> past the end of the list
  and the run ends in \<^verbatim>\<open>IndexError\<close>. Here the one image is packed into one page, and with a
  second image the run has no pages to count.
\<close>

theorem one_more_image_index_error:
  "num_pages (pack_images_shelf (sort_sizes [(250, 100, 0)]) 300 300 10) = Some 1 \<and>
   pack_images_shelf (sort_sizes ([(250, 100, 0)] @ [(250, 0, 1)])) 300 300 10 =
     Some (Inl IndexError) \<and>
   num_pages (pack_images_shelf (sort_sizes ([(250, 100, 0)] @ [(250, 0, 1)])) 300 300 10) = None"
  by code_simp



section \<open>The read in the fallback branch (C10)\<close>

text \<open>
  C10 says that for sizes with non-negative dimensions the fallback branch is reached
  only while an image is left, so that its read of \<^verbatim>\<open>images_sizes[i]\<close> is in bounds. An
  image of height 0 that fits is placed and leaves \<^verbatim>\<open>shelf_height == 0\<close>: the branch is
  taken with \<^verbatim>\<open>i == n\<close> and the read raises \<^verbatim>\<open>IndexError\<close>.
\<close>

theorem zero_height_index_error:
  "pack_images_shelf [(10, 0, 0)] 300 300 10 = Some (Inl IndexError)"
  by code_simp

lemma positive_heights_Cons [simp]:
  "positive_heights ((w, h, idx) # imgs) \<longleftrightarrow> 0 < h \<and> positive_heights imgs"
  by (simp add: positive_heights_def)

lemma positive_heights_Nil [simp]: "positive_heights []"
  by (simp add: positive_heights_def)

lemma positive_heights_subset:
  "positive_heights imgs \<Longrightarrow> set imgs' \<subseteq> set imgs \<Longrightarrow> positive_heights imgs'"
  by (auto simp: positive_heights_def list_all_iff)

text \<open>
  With positive heights the shelf loop leaves \<^verbatim>\<open>shelf_height == 0\<close> only when it has
  placed nothing.
\<close>

lemma shelf_loop_zero_height:
  assumes "positive_heights imgs"
    and "shelf_loop page_w padding y imgs shelf_x 0 placements =
           (imgs', shelf_x', 0, placements')"
  shows "imgs' = imgs \<and> placements' = placements \<and> shelf_x' = shelf_x"
proof (cases imgs)
  case Nil
  with assms(2) show ?thesis by simp
next
  case (Cons a rest)
  obtain w h idx where a: "a = (w, h, idx)" by (cases a) auto
  from assms(1) Cons a have h: "0 < h" by simp
  show ?thesis
  proof (cases "w + shelf_x + padding \<le> page_w")
    case False
    with assms(2) Cons a show ?thesis by simp
  next
    case True
    with assms(2) Cons a h have
      "shelf_loop page_w padding y rest (shelf_x + (w + padding)) h
         (placements @ [(idx, shelf_x, y, w, h)]) = (imgs', shelf_x', 0, placements')"
      by simp
    from shelf_loop_height_mono [OF this] h show ?thesis by simp
  qed
qed

lemma fallback_subset:
  "fallback page_w padding y imgs placements = Inr (imgs', sh, placements')
   \<Longrightarrow> set imgs' \<subseteq> set imgs"
  by (auto simp: fallback_def Let_def split: list.splits if_splits)

lemma shelf_step_subset:
  assumes "shelf_step page_w padding y imgs placements = Inr (imgs', sh, placements')"
  shows "set imgs' \<subseteq> set imgs"
proof -
  obtain i1 x1 h1 p1 where
    sl: "shelf_loop page_w padding y imgs padding 0 placements = (i1, x1, h1, p1)"
    by (metis prod_cases4)
  from shelf_loop_suffix [OF sl] have sub: "set i1 \<subseteq> set imgs" by auto
  show ?thesis
  proof (cases "h1 = 0")
    case True
    with assms sl have "fallback page_w padding y i1 p1 = Inr (imgs', sh, placements')"
      by (simp add: shelf_step_def)
    from fallback_subset [OF this] sub show ?thesis by simp
  next
    case False
    with assms sl sub show ?thesis by (simp add: shelf_step_def)
  qed
qed

lemma shelf_step_no_index_error:
  assumes "positive_heights imgs" and "imgs \<noteq> []"
  shows "shelf_step page_w padding y imgs placements \<noteq> Inl IndexError"
proof -
  obtain i1 x1 h1 p1 where
    sl: "shelf_loop page_w padding y imgs padding 0 placements = (i1, x1, h1, p1)"
    by (metis prod_cases4)
  show ?thesis
  proof (cases "h1 = 0")
    case True
    with shelf_loop_zero_height [OF assms(1)] sl have "i1 = imgs" by simp
    with assms(2) have "fallback page_w padding y i1 p1 \<noteq> Inl IndexError"
      by (auto simp: fallback_def Let_def split: list.splits)
    with True sl show ?thesis by (simp add: shelf_step_def)
  next
    case False
    with sl show ?thesis by (simp add: shelf_step_def)
  qed
qed

lemma page_loop_no_index_error:
  "positive_heights imgs \<Longrightarrow>
   page_loop page_w page_h padding imgs y placements \<noteq> Inl IndexError \<and>
   (\<forall>imgs' placements'.
      page_loop page_w page_h padding imgs y placements = Inr (imgs', placements')
      \<longrightarrow> set imgs' \<subseteq> set imgs)"
proof (induction page_w page_h padding imgs y placements rule: page_loop.induct)
  case (1 page_w page_h padding imgs y placements)
  show ?case
  proof (cases "y < page_h - padding \<and> imgs \<noteq> []")
    case False
    from page_loop_stop [OF False] show ?thesis by simp
  next
    case True
    then have y: "y < page_h - padding" and ne: "imgs \<noteq> []" by auto
    show ?thesis
    proof (cases "shelf_step page_w padding y imgs placements")
      case (Inl e)
      from shelf_step_no_index_error [OF "1.prems" ne] Inl have "e \<noteq> IndexError" by auto
      with page_loop_error [OF y ne Inl] show ?thesis by simp
    next
      case (Inr r)
      obtain i1 sh p1 where r: "r = (i1, sh, p1)" by (cases r) auto
      with Inr have st: "shelf_step page_w padding y imgs placements = Inr (i1, sh, p1)" by simp
      from shelf_step_subset [OF st] have sub: "set i1 \<subseteq> set imgs" .
      show ?thesis
      proof (cases "page_h - padding \<le> y + (sh + padding) \<and> i1 \<noteq> []")
        case stop: True
        with page_loop_full [OF y ne st] sub show ?thesis by simp
      next
        case go: False
        from positive_heights_subset [OF "1.prems" sub] have "positive_heights i1" .
        from "1.IH" [OF True st refl refl refl go this] page_loop_next [OF y ne st go] sub
        show ?thesis by auto
      qed
    qed
  qed
qed

lemma pages_loop_no_index_error:
  assumes "pages_loop page_w page_h padding imgs pages = Some r"
  shows "positive_heights imgs \<longrightarrow> r \<noteq> Inl IndexError"
proof (rule pages_loop.raw_induct
    [where P = "\<lambda>page_w page_h padding imgs pages r. positive_heights imgs \<longrightarrow> r \<noteq> Inl IndexError",
      OF _ assms])
  fix f :: "int \<Rightarrow> int \<Rightarrow> int \<Rightarrow> size list \<Rightarrow> placement list list
     \<Rightarrow> (error + placement list list) option"
  fix page_w page_h padding :: int and imgs :: "size list" and pages r
  assume IH: "\<And>page_w page_h padding imgs pages r.
      f page_w page_h padding imgs pages = Some r \<Longrightarrow> positive_heights imgs \<longrightarrow> r \<noteq> Inl IndexError"
    and body: "(if imgs \<noteq> [] then
        (case page_loop page_w page_h padding imgs padding [] of
           Inl e \<Rightarrow> Some (Inl e)
         | Inr (imgs', placements) \<Rightarrow> f page_w page_h padding imgs' (pages @ [placements]))
      else Some (Inr pages)) = Some r"
  show "positive_heights imgs \<longrightarrow> r \<noteq> Inl IndexError"
  proof
    assume pos: "positive_heights imgs"
    show "r \<noteq> Inl IndexError"
    proof (cases "imgs = []")
      case True
      with body show ?thesis by auto
    next
      case False
      show ?thesis
      proof (cases "page_loop page_w page_h padding imgs padding []")
        case (Inl e)
        with page_loop_no_index_error [OF pos, of page_w page_h padding padding "[]"]
        have "e \<noteq> IndexError" by auto
        with body False Inl show ?thesis by auto
      next
        case (Inr q)
        obtain i1 p1 where q: "q = (i1, p1)" by (cases q) auto
        with Inr page_loop_no_index_error [OF pos, of page_w page_h padding padding "[]"]
        have "set i1 \<subseteq> set imgs" by simp
        from positive_heights_subset [OF pos this] have "positive_heights i1" .
        moreover from body False Inr q
        have "f page_w page_h padding i1 (pages @ [p1]) = Some r" by simp
        ultimately show ?thesis using IH by blast
      qed
    qed
  qed
qed

text \<open>
  C10 as amended: for sizes with positive heights (and any widths), \<^verbatim>\<open>pack_images_shelf\<close>
  never raises \<^verbatim>\<open>IndexError\<close>; a shelf loop entered with images left (any of the input's)
  that ends with \<^verbatim>\<open>shelf_height == 0\<close> has placed no image, so the fallback branch finds
  the image it reads.
\<close>

theorem fallback_read_in_bounds:
  assumes "positive_heights images_sizes"
  shows "pack_images_shelf images_sizes page_w_px page_h_px padding \<noteq> Some (Inl IndexError) \<and>
         (\<forall>imgs y placements imgs' shelf_x placements'.
            set imgs \<subseteq> set images_sizes \<and> imgs \<noteq> [] \<and>
            shelf_loop page_w_px padding y imgs padding 0 placements =
              (imgs', shelf_x, 0, placements')
            \<longrightarrow> imgs' = imgs \<and> placements' = placements \<and>
                fallback page_w_px padding y imgs' placements' \<noteq> Inl IndexError)"
proof
  from pages_loop_no_index_error [of page_w_px page_h_px padding images_sizes "[]"] assms
  show "pack_images_shelf images_sizes page_w_px page_h_px padding \<noteq> Some (Inl IndexError)"
    by (auto simp: pack_images_shelf_def)
next
  show "\<forall>imgs y placements imgs' shelf_x placements'.
            set imgs \<subseteq> set images_sizes \<and> imgs \<noteq> [] \<and>
            shelf_loop page_w_px padding y imgs padding 0 placements =
              (imgs', shelf_x, 0, placements')
            \<longrightarrow> imgs' = imgs \<and> placements' = placements \<and>
                fallback page_w_px padding y imgs' placements' \<noteq> Inl IndexError"
  proof (intro allI impI, elim conjE)
    fix imgs :: "size list" and y :: int and placements :: "placement list"
      and imgs' :: "size list" and shelf_x :: int and placements' :: "placement list"
    assume sub: "set imgs \<subseteq> set images_sizes" and ne: "imgs \<noteq> []"
      and sl: "shelf_loop page_w_px padding y imgs padding 0 placements =
              (imgs', shelf_x, 0, placements')"
    from positive_heights_subset [OF assms sub] have "positive_heights imgs" .
    from shelf_loop_zero_height [OF this sl] have same: "imgs' = imgs" "placements' = placements"
      by simp_all
    with ne have "fallback page_w_px padding y imgs' placements' \<noteq> Inl IndexError"
      by (auto simp: fallback_def Let_def split: list.splits)
    with same show "imgs' = imgs \<and> placements' = placements \<and>
                fallback page_w_px padding y imgs' placements' \<noteq> Inl IndexError"
      by simp
  qed
qed

theorem fallback_read_in_bounds_witness:
  "positive_heights [(1000, 50, 0), (10, 5, 1)] \<and>
   pack_images_shelf [(1000, 50, 0), (10, 5, 1)] 300 300 10 \<noteq> Some (Inl IndexError)"
  using fallback_read_in_bounds [of "[(1000, 50, 0), (10, 5, 1)]" 300 300 10] by simp

end
